theory Spec2Isabelle
  imports Main
begin

section \<open>Direct TSQR graph construction (rcnmf/tsqr.py)\<close>

text \<open>
  The module builds, for a row-blocked chunked array, the task graph of the direct
  tall-and-skinny QR factorisation. Nothing is executed at construction time: the
  function \<open>qr\<close> only produces dictionaries from task keys to recipes. The model
  below follows the source line by line. Python exceptions are values of the type
  \<open>error\<close>, the module-level generator \<open>names\<close> is an explicit counter that is
  passed in and returned, and dictionaries are maps.
\<close>

subsection \<open>Errors\<close>

datatype error = ValueError | IndexError | ZeroDivisionError | OverflowError

text \<open>A comprehension over fallible elements stops at the first element that raises.\<close>

fun collect :: "(error + 'a) list \<Rightarrow> error + 'a list" where
  "collect [] = Inr []"
| "collect (Inl e # _) = Inl e"
| "collect (Inr x # rs) = (case collect rs of Inl e \<Rightarrow> Inl e | Inr xs \<Rightarrow> Inr (x # xs))"

subsection \<open>Binary64 arithmetic as used by \<open>div_ceil\<close>\<close>

text \<open>
  \<open>div_ceil\<close> computes \<open>int(ceil(float(t[0]) / t[1]))\<close>: both integers are converted
  to doubles, divided as doubles, and the quotient is rounded up. A finite non-negative
  double is a mantissa and an exponent, \<open>Double M e\<close> standing for \<open>M * 2 ^ e\<close>.
  Conversion and division round to nearest, ties to even, with 53 bits of precision;
  exponents below \<open>-1074\<close> do not exist (subnormal numbers), and a result of
  \<open>2 ^ 1024\<close> or more is an overflow.
\<close>

fun bit_length :: "nat \<Rightarrow> nat" where
  "bit_length n = (if n = 0 then 0 else Suc (bit_length (n div 2)))"

declare bit_length.simps [simp del]

definition rne :: "nat \<Rightarrow> nat \<Rightarrow> nat" where
  \<comment> \<open>the integer nearest to \<open>a / b\<close>, ties to the even one\<close>
  "rne a b =
     (let q = a div b; r = a mod b
      in if 2 * r < b then q
         else if b < 2 * r then q + 1
         else if even q then q else q + 1)"

datatype double = Double nat int

definition round_double :: "nat \<Rightarrow> nat \<Rightarrow> double option" where
  \<comment> \<open>the double nearest to \<open>a / b\<close> (for \<open>b > 0\<close>); \<open>None\<close> on overflow\<close>
  "round_double a b =
     (if a = 0 then Some (Double 0 0)
      else
        let e0 = int (bit_length a) - int (bit_length b) - 53;
            e1 = (if 2 ^ 53 * (b * 2 ^ nat e0) \<le> a * 2 ^ nat (- e0) then e0 + 1 else e0);
            e = max e1 (- 1074);
            M = rne (a * 2 ^ nat (- e)) (b * 2 ^ nat e)
        in if 971 < e \<or> (e = 971 \<and> M = 2 ^ 53) then None else Some (Double M e))"

definition float_of_nat :: "nat \<Rightarrow> error + double" where
  \<comment> \<open>\<open>float(i)\<close> for a Python integer\<close>
  "float_of_nat i = (case round_double i 1 of None \<Rightarrow> Inl OverflowError | Some x \<Rightarrow> Inr x)"

fun float_div :: "double \<Rightarrow> double \<Rightarrow> error + double" where
  "float_div (Double m1 e1) (Double m2 e2) =
     (if m2 = 0 then Inl ZeroDivisionError
      else case round_double (m1 * 2 ^ nat (e1 - e2)) (m2 * 2 ^ nat (e2 - e1)) of
             None \<Rightarrow> Inl OverflowError
           | Some q \<Rightarrow> Inr q)"

fun int_ceil :: "double \<Rightarrow> nat" where
  \<comment> \<open>\<open>int(ceil(x))\<close>\<close>
  "int_ceil (Double M e) =
     (if 0 \<le> e then M * 2 ^ nat e else (M + 2 ^ nat (- e) - 1) div 2 ^ nat (- e))"

definition div_ceil :: "nat \<times> nat \<Rightarrow> error + nat" where
  "div_ceil t =
     (case float_of_nat (fst t) of
        Inl e \<Rightarrow> Inl e
      | Inr x \<Rightarrow>
          (case float_of_nat (snd t) of
             Inl e \<Rightarrow> Inl e
           | Inr y \<Rightarrow>
               (case float_div x y of
                  Inl e \<Rightarrow> Inl e
                | Inr q \<Rightarrow> Inr (int_ceil q))))"

definition findnumblocks :: "nat list \<Rightarrow> nat list \<Rightarrow> error + nat list" where
  \<comment> \<open>\<open>_findnumblocks\<close>\<close>
  "findnumblocks shape blockshape = collect (map div_ceil (zip shape blockshape))"

subsection \<open>Task keys, recipes and graphs\<close>

text \<open>
  A task key is a tuple \<open>(name, i, j)\<close>: a name and block indices. A recipe is a tuple
  of a callable and its arguments; an argument is another key (a dependency edge), the
  integer of a positional extraction, or a tuple of slices \<open>slice(lo, hi)\<close>. The
  recipes of the input's own graph are never inspected and stay abstract (\<open>Given\<close>).
\<close>

type_synonym key = "string \<times> nat list"

datatype func = np_linalg_qr | operator_getitem | vstack | np_dot

datatype arg = Ref key | Index nat | Slices "(nat \<times> nat) list"

datatype 'v recipe = Task func "arg list" | Given 'v

type_synonym 'v graph = "key \<rightharpoonup> 'v recipe"

fun deps :: "'v recipe \<Rightarrow> key set" where
  \<comment> \<open>the keys a recipe refers to\<close>
  "deps (Task f as) = {k. Ref k \<in> set as}"
| "deps (Given v) = {}"

definition dict_of :: "('k \<times> 'a) list \<Rightarrow> ('k \<rightharpoonup> 'a)" where
  \<comment> \<open>a dictionary built from its items in order: a later item replaces an earlier one\<close>
  "dict_of kvs = foldl (\<lambda>m (k, v). m(k \<mapsto> v)) Map.empty kvs"

subsection \<open>The chunked array\<close>

text \<open>
  Modelled from the spec: the chunked array is the external library's (dask.array);
  the spec's data model gives it a task graph, a namespace identifier and a partitioning
  of block extents per axis. Its shape is the sum of the extents along each axis and its
  number of dimensions is the length of the shape.
\<close>

record 'v array =
  dask :: "'v graph"
  name :: string
  blockdims :: "nat list list"

definition shape :: "'v array \<Rightarrow> nat list" where
  "shape a = map sum_list (blockdims a)"

definition ndim :: "'v array \<Rightarrow> nat" where
  "ndim a = length (shape a)"

text \<open>
  Modelled from the spec: the library's constructor \<open>da.Array(dsk, name, shape=...,
  blockshape=...)\<close>. The partitioning it derives from a shape and a block shape is made
  of full blocks followed by one shorter block for the remainder (the spec's block-count
  law: the last block has \<open>m - br * (nblocks - 1)\<close> rows).
\<close>

definition blockdims_from_blockshape :: "nat list \<Rightarrow> nat list \<Rightarrow> error + nat list list" where
  "blockdims_from_blockshape shp blockshape =
     collect (map (\<lambda>(d, bd).
        if bd = 0 then Inl ZeroDivisionError
        else Inr (replicate (d div bd) bd @ (if d mod bd \<noteq> 0 then [d mod bd] else [])))
       (zip shp blockshape))"

definition Array :: "'v graph \<Rightarrow> string \<Rightarrow> nat list \<Rightarrow> nat list \<Rightarrow> error + 'v array" where
  "Array dsk nm shp blockshape =
     (case blockdims_from_blockshape shp blockshape of
        Inl e \<Rightarrow> Inl e
      | Inr bds \<Rightarrow> Inr \<lparr>dask = dsk, name = nm, blockdims = bds\<rparr>)"

text \<open>
  Modelled from the spec: the library's \<open>da.core.top(func, out, 'ij', a, 'ij', ...,
  numblocks=...)\<close>, the blockwise application of a callable: for every block index
  \<open>(i, j)\<close> of the grid one task applies \<open>func\<close> to block \<open>(i, j)\<close> of every argument.
\<close>

definition top :: "func \<Rightarrow> string \<Rightarrow> string list \<Rightarrow> nat list \<Rightarrow> 'v graph" where
  "top f out args numblocks =
     dict_of (map (\<lambda>(i, j). ((out, [i, j]), Task f (map (\<lambda>a. Ref (a, [i, j])) args)))
       (List.product [0..<numblocks ! 0] [0..<numblocks ! 1]))"

subsection \<open>The name generator\<close>

text \<open>
  \<open>names = ('tsqr_%d' % i for i in count(1))\<close>: the state of the generator is the next
  value of the counter, \<open>1\<close> when the module is loaded.
\<close>

definition digit_char :: "nat \<Rightarrow> char" where
  "digit_char d = ''0123456789'' ! d"

fun str_nat :: "nat \<Rightarrow> string" where
  \<comment> \<open>\<open>'%d' % i\<close>\<close>
  "str_nat i = (if i < 10 then [digit_char i] else str_nat (i div 10) @ [digit_char (i mod 10)])"

declare str_nat.simps [simp del]

definition names_init :: nat where
  "names_init = 1"

definition next_names :: "nat \<Rightarrow> string \<times> nat" where
  "next_names i = (''tsqr_'' @ str_nat i, Suc i)"

definition name_or_next :: "string option \<Rightarrow> nat \<Rightarrow> string \<times> nat" where
  \<comment> \<open>\<open>name or next(names)\<close>: \<open>None\<close> and the empty string are both false\<close>
  "name_or_next name_opt names =
     (case name_opt of
        None \<Rightarrow> next_names names
      | Some s \<Rightarrow> if s = [] then next_names names else (s, names))"

subsection \<open>The task dictionaries of \<open>qr\<close>\<close>

definition dsk_qr_st1 :: "string \<Rightarrow> string \<Rightarrow> nat list \<Rightarrow> 'v graph" where
  "dsk_qr_st1 prefix data_name numblocks =
     top np_linalg_qr (prefix @ ''QR_st1'') [data_name] numblocks"

definition dsk_q_st1 :: "string \<Rightarrow> nat list \<Rightarrow> 'v graph" where
  "dsk_q_st1 prefix numblocks =
     dict_of (map (\<lambda>i. ((prefix @ ''Q_st1'', [i, 0]),
                        Task operator_getitem [Ref (prefix @ ''QR_st1'', [i, 0]), Index 0]))
       [0..<numblocks ! 0])"

definition dsk_r_st1 :: "string \<Rightarrow> nat list \<Rightarrow> 'v graph" where
  "dsk_r_st1 prefix numblocks =
     dict_of (map (\<lambda>i. ((prefix @ ''R_st1'', [i, 0]),
                        Task operator_getitem [Ref (prefix @ ''QR_st1'', [i, 0]), Index 1]))
       [0..<numblocks ! 0])"

definition to_stack :: "string \<Rightarrow> nat list \<Rightarrow> arg list" where
  \<comment> \<open>the arguments that follow \<open>_vstack\<close> in \<open>to_stack\<close>\<close>
  "to_stack prefix numblocks = map (\<lambda>i. Ref (prefix @ ''R_st1'', [i, 0])) [0..<numblocks ! 0]"

definition dsk_r_st1_stacked :: "string \<Rightarrow> nat list \<Rightarrow> 'v graph" where
  "dsk_r_st1_stacked prefix numblocks =
     [(prefix @ ''R_st1_stacked'', [0, 0]) \<mapsto> Task vstack (to_stack prefix numblocks)]"

definition dsk_qr_st2 :: "string \<Rightarrow> 'v graph" where
  "dsk_qr_st2 prefix = top np_linalg_qr (prefix @ ''QR_st2'') [prefix @ ''R_st1_stacked''] [1, 1]"

definition dsk_q_st2_aux :: "string \<Rightarrow> 'v graph" where
  "dsk_q_st2_aux prefix =
     [(prefix @ ''Q_st2_aux'', [0, 0]) \<mapsto>
        Task operator_getitem [Ref (prefix @ ''QR_st2'', [0, 0]), Index 0]]"

definition dsk_q_st2 :: "string \<Rightarrow> nat list \<Rightarrow> nat \<Rightarrow> 'v graph" where
  "dsk_q_st2 prefix numblocks n =
     dict_of (map (\<lambda>ijk. ((prefix @ ''Q_st2'', ijk),
                          Task operator_getitem
                            [Ref (prefix @ ''Q_st2_aux'', [0, 0]),
                             Slices (map (\<lambda>(i, d). (i * d, (i + 1) * d)) (zip ijk [n, n]))]))
       (product_lists (map (\<lambda>k. [0..<k]) numblocks)))"

definition dsk_r_st2 :: "string \<Rightarrow> 'v graph" where
  "dsk_r_st2 prefix =
     [(prefix @ ''R'', [0, 0]) \<mapsto>
        Task operator_getitem [Ref (prefix @ ''QR_st2'', [0, 0]), Index 1]]"

definition dsk_q_st3 :: "string \<Rightarrow> nat list \<Rightarrow> 'v graph" where
  "dsk_q_st3 prefix numblocks =
     top np_dot (prefix @ ''Q'') [prefix @ ''Q_st1'', prefix @ ''Q_st2''] numblocks"

definition dsk_q :: "string \<Rightarrow> 'v array \<Rightarrow> nat list \<Rightarrow> nat \<Rightarrow> 'v graph" where
  "dsk_q prefix data numblocks n =
     dask data ++ dsk_qr_st1 prefix (name data) numblocks ++ dsk_q_st1 prefix numblocks
       ++ dsk_r_st1 prefix numblocks ++ dsk_r_st1_stacked prefix numblocks
       ++ dsk_qr_st2 prefix ++ dsk_q_st2_aux prefix ++ dsk_q_st2 prefix numblocks n
       ++ dsk_q_st3 prefix numblocks"

definition dsk_r :: "string \<Rightarrow> 'v array \<Rightarrow> nat list \<Rightarrow> 'v graph" where
  "dsk_r prefix data numblocks =
     dask data ++ dsk_qr_st1 prefix (name data) numblocks ++ dsk_r_st1 prefix numblocks
       ++ dsk_r_st1_stacked prefix numblocks ++ dsk_qr_st2 prefix ++ dsk_r_st2 prefix"

subsection \<open>\<open>qr\<close>\<close>

text \<open>
  The function takes the array, the optional name and the state of the generator
  \<open>names\<close>; it returns the pair of arrays or the exception raised, and the state of the
  generator afterwards. The block shape is read from the first block along each axis;
  reading it raises when the first axis has no block at all.
\<close>

definition blockshape_of :: "'v array \<Rightarrow> nat list" where
  \<comment> \<open>\<open>(data.blockdims[0][0], data.blockdims[1][0])\<close>\<close>
  "blockshape_of data = [hd (blockdims data ! 0), hd (blockdims data ! 1)]"

definition qr ::
  "'v array \<Rightarrow> string option \<Rightarrow> nat \<Rightarrow> (error + 'v array \<times> 'v array) \<times> nat" where
  "qr data name_opt names =
     (if ndim data \<noteq> 2 then (Inl ValueError, names)
      else if length (blockdims data ! 1) \<noteq> 1 then (Inl ValueError, names)
      else if blockdims data ! 0 = [] then (Inl IndexError, names)
      else
        let blockshape = blockshape_of data;
            n = shape data ! 1;
            (prefix0, names') = name_or_next name_opt names;
            prefix = prefix0 @ ''_''
        in (case findnumblocks (shape data) blockshape of
              Inl e \<Rightarrow> (Inl e, names')
            | Inr numblocks \<Rightarrow>
                (case Array (dsk_q prefix data numblocks n) (prefix @ ''Q'')
                        (shape data) blockshape of
                   Inl e \<Rightarrow> (Inl e, names')
                 | Inr q \<Rightarrow>
                     (case Array (dsk_r prefix data numblocks) (prefix @ ''R'')
                             [n, n] [n, n] of
                        Inl e \<Rightarrow> (Inl e, names')
                      | Inr r \<Rightarrow> (Inr (q, r), names')))))"

subsection \<open>Observations on recipes\<close>

fun row_range :: "'v recipe \<Rightarrow> nat set" where
  \<comment> \<open>the rows a slicing task selects: the first slice of its tuple of slices\<close>
  "row_range (Task f [a, Slices ((lo, hi) # cs)]) = {lo..<hi}"
| "row_range _ = {}"

section \<open>Doubles: the quotient of a number by itself\<close>

lemmas float_eval =
  div_ceil_def float_of_nat_def round_double_def bit_length.simps rne_def Let_def

lemma rne_exact: "0 < b \<Longrightarrow> rne (k * b) b = k"
  by (simp add: rne_def)

lemma round_double_same: "0 < M \<Longrightarrow> round_double M M = Some (Double (2 ^ 52) (- 52))"
proof -
  assume M: "0 < M"
  have "rne (M * 2 ^ 52) M = 2 ^ 52"
    using rne_exact [OF M, of "2 ^ 52"] by (simp add: mult.commute)
  with M show ?thesis
    by (simp add: round_double_def Let_def)
qed

lemma div_ceil_same: "div_ceil (n, n) = Inr k \<Longrightarrow> k = 1"
proof -
  assume a: "div_ceil (n, n) = Inr k"
  then obtain M e where f: "float_of_nat n = Inr (Double M e)"
    by (cases "float_of_nat n") (auto simp: div_ceil_def intro: double.exhaust)
  with a have M: "0 < M"
    by (auto simp: div_ceil_def split: if_splits)
  with a f round_double_same [OF M] show ?thesis
    by (simp add: div_ceil_def)
qed

section \<open>Dictionaries\<close>

lemma dict_of_snoc: "dict_of (kvs @ [(k, v)]) = (dict_of kvs)(k \<mapsto> v)"
  by (simp add: dict_of_def)

lemma dict_of_Nil: "dict_of [] = Map.empty"
  by (simp add: dict_of_def)

lemma dict_of_single: "dict_of [(k, v)] = [k \<mapsto> v]"
  by (simp add: dict_of_def)

lemma dict_of_blocks:
  "dict_of (map (\<lambda>i. ((nm, [i, 0]), g i)) [0..<nb]) k =
     (if fst k = nm \<and> (\<exists>i<nb. snd k = [i, 0]) then Some (g (hd (snd k))) else None)"
proof (induction nb)
  case 0
  then show ?case by (simp add: dict_of_Nil)
next
  case (Suc nb)
  then show ?case
    by (cases k) (auto simp: dict_of_snoc less_Suc_eq)
qed

lemma product_single: "List.product xs [y] = map (\<lambda>x. (x, y)) xs"
  by (induction xs) auto

lemma top_row_blocks:
  "top f out args [nb, Suc 0] =
     dict_of (map (\<lambda>i. ((out, [i, 0]), Task f (map (\<lambda>a. Ref (a, [i, 0])) args))) [0..<nb])"
  by (simp add: top_def product_single comp_def)

lemma top_single:
  "top f out args [Suc 0, Suc 0] = [(out, [0, 0]) \<mapsto> Task f (map (\<lambda>a. Ref (a, [0, 0])) args)]"
  by (simp add: top_def dict_of_single)

lemma dsk_q_st2_row_blocks:
  "dsk_q_st2 prefix [nb, Suc 0] n =
     dict_of (map (\<lambda>i. ((prefix @ ''Q_st2'', [i, 0]),
                        Task operator_getitem
                          [Ref (prefix @ ''Q_st2_aux'', [0, 0]),
                           Slices [(i * n, (i + 1) * n), (0, n)]]))
       [0..<nb])"
  by (simp add: dsk_q_st2_def comp_def)

lemmas stage_dicts =
  top_single dict_of_single dsk_qr_st1_def dsk_q_st1_def dsk_r_st1_def dsk_r_st1_stacked_def
  dsk_qr_st2_def dsk_q_st2_aux_def dsk_q_st2_row_blocks dsk_r_st2_def dsk_q_st3_def
  top_row_blocks to_stack_def

section \<open>What a successful call returns\<close>

lemma collect_two:
  "collect [a, b] = Inr xs \<Longrightarrow> \<exists>x y. a = Inr x \<and> b = Inr y \<and> xs = [x, y]"
  by (cases a; cases b) auto

lemma qr_success:
  assumes "qr data name_opt names = (Inr (q, r), names')"
  obtains br rest n nb m prefix where
    "blockdims data = [br # rest, [n]]"
    "m = br + sum_list rest"
    "shape data = [m, n]"
    "blockshape_of data = [br, n]"
    "findnumblocks (shape data) (blockshape_of data) = Inr [nb, Suc 0]"
    "div_ceil (m, br) = Inr nb"
    "0 < br" "0 < n"
    "names' = snd (name_or_next name_opt names)"
    "prefix = fst (name_or_next name_opt names) @ ''_''"
    "q = \<lparr>dask = dsk_q prefix data [nb, Suc 0] n, name = prefix @ ''Q'',
          blockdims = [replicate (m div br) br @ (if m mod br \<noteq> 0 then [m mod br] else []),
                       [n]]\<rparr>"
    "r = \<lparr>dask = dsk_r prefix data [nb, Suc 0], name = prefix @ ''R'', blockdims = [[n], [n]]\<rparr>"
proof -
  from assms have nd: "ndim data = 2" and l1: "length (blockdims data ! 1) = 1"
    by (auto simp: qr_def split: if_splits)
  from nd obtain rows cols where bd: "blockdims data = [rows, cols]"
    by (auto simp: ndim_def shape_def length_Suc_conv numeral_2_eq_2)
  from l1 bd obtain n where cols: "cols = [n]"
    by (auto simp: length_Suc_conv)
  from assms nd bd cols obtain br rest where rows: "rows = br # rest"
    by (cases rows) (auto simp: qr_def)
  define m where "m = br + sum_list rest"
  have shp: "shape data = [m, n]"
    by (simp add: shape_def bd cols rows m_def)
  have bs: "blockshape_of data = [br, n]"
    by (simp add: blockshape_of_def bd cols rows)
  obtain p0 s' where pn: "name_or_next name_opt names = (p0, s')"
    by (cases "name_or_next name_opt names")
  from assms nd bd cols rows pn shp bs obtain numblocks where
    fnb: "findnumblocks [m, n] [br, n] = Inr numblocks"
    by (auto simp: qr_def Let_def split: sum.splits)
  then obtain nb k where dc: "div_ceil (m, br) = Inr nb"
    "div_ceil (n, n) = Inr k" "numblocks = [nb, k]"
    by (auto simp: findnumblocks_def dest!: collect_two)
  have k: "k = 1" using dc(2) by (rule div_ceil_same)
  have n0: "0 < n" using dc(2)
    by (cases "n = 0") (auto simp: div_ceil_def float_of_nat_def round_double_def)
  have br0: "0 < br" using dc(1)
    by (cases "br = 0")
      (auto simp: div_ceil_def float_of_nat_def round_double_def Let_def
            split: sum.splits option.splits if_splits double.splits)
  have bq: "blockdims_from_blockshape [m, n] [br, n] =
      Inr [replicate (m div br) br @ (if m mod br \<noteq> 0 then [m mod br] else []), [n]]"
    using n0 br0 by (simp add: blockdims_from_blockshape_def)
  have brr: "blockdims_from_blockshape [n, n] [n, n] = Inr [[n], [n]]"
    using n0 by (simp add: blockdims_from_blockshape_def)
  from assms nd bd cols rows pn shp bs fnb dc(3) k have
    "q = \<lparr>dask = dsk_q (p0 @ ''_'') data [nb, Suc 0] n, name = p0 @ ''_Q'',
          blockdims = [replicate (m div br) br @ (if m mod br \<noteq> 0 then [m mod br] else []),
                       [n]]\<rparr> \<and>
     r = \<lparr>dask = dsk_r (p0 @ ''_'') data [nb, Suc 0], name = p0 @ ''_R'',
          blockdims = [[n], [n]]\<rparr> \<and>
     names' = s'"
    by (simp add: qr_def Let_def Array_def bq brr)
  with bd cols rows dc(1) n0 br0 pn m_def shp bs fnb dc(3) k show ?thesis
    by (intro that [of br rest n m nb "p0 @ ''_''"]) simp_all
qed

section \<open>Which exceptions \<open>qr\<close> raises\<close>

lemma collect_Inl: "collect rs = Inl e \<Longrightarrow> Inl e \<in> set rs"
  by (induction rs rule: collect.induct) (auto split: sum.splits)

lemma div_ceil_error: "div_ceil t = Inl e \<Longrightarrow> e = ZeroDivisionError \<or> e = OverflowError"
  by (cases "float_of_nat (fst t)"; cases "float_of_nat (snd t)")
     (auto simp: div_ceil_def float_of_nat_def
           split: option.splits sum.splits double.splits if_splits
           elim!: float_div.elims)

lemma findnumblocks_error:
  "findnumblocks shp bs = Inl e \<Longrightarrow> e = ZeroDivisionError \<or> e = OverflowError"
  unfolding findnumblocks_def by (drule collect_Inl) (auto dest: div_ceil_error [OF sym])

lemma Array_error: "Array dsk nm shp bs = Inl e \<Longrightarrow> e = ZeroDivisionError"
  unfolding Array_def blockdims_from_blockshape_def
  by (auto split: sum.splits dest!: collect_Inl split: if_splits)

lemma qr_ValueError_iff:
  "fst (qr data name_opt names) = Inl ValueError \<longleftrightarrow>
     (ndim data \<noteq> 2 \<or> length (blockdims data ! 1) \<noteq> 1)"
  by (auto simp: qr_def Let_def split: list.splits sum.splits prod.splits
           dest: findnumblocks_error Array_error)

lemma qr_reject:
  "ndim data \<noteq> 2 \<or> length (blockdims data ! 1) \<noteq> 1 \<Longrightarrow>
     qr data name_opt names = (Inl ValueError, names)"
  by (auto simp: qr_def)

section \<open>Concrete inputs\<close>

text \<open>
  Arrays used to instantiate the theorems: a vector, a matrix cut into two column
  blocks, and the 10 by 2 matrix of the spec's scenario cut into two row blocks of 5.
\<close>

definition data_1d :: "unit array" where
  "data_1d = \<lparr>dask = Map.empty, name = ''v'', blockdims = [[4]]\<rparr>"

definition data_2cols :: "unit array" where
  "data_2cols = \<lparr>dask = Map.empty, name = ''w'', blockdims = [[5, 5], [1, 1]]\<rparr>"

definition data_10x2 :: "unit array" where
  "data_10x2 =
     \<lparr>dask = [(''x'', [0, 0]) \<mapsto> Given (), (''x'', [1, 0]) \<mapsto> Given ()],
      name = ''x'', blockdims = [[5, 5], [2]]\<rparr>"

definition q_10x2 :: "unit array" where
  "q_10x2 = \<lparr>dask = dsk_q ''a_'' data_10x2 [2, 1] 2, name = ''a_Q'', blockdims = [[5, 5], [2]]\<rparr>"

definition r_10x2 :: "unit array" where
  "r_10x2 = \<lparr>dask = dsk_r ''a_'' data_10x2 [2, 1], name = ''a_R'', blockdims = [[2], [2]]\<rparr>"

lemma numblocks_10x2:
  "findnumblocks (shape data_10x2) (blockshape_of data_10x2) = Inr [2, 1]"
  by (simp add: data_10x2_def shape_def blockshape_of_def findnumblocks_def float_eval)

lemma qr_10x2: "qr data_10x2 (Some ''a'') names = (Inr (q_10x2, r_10x2), names)"
proof -
  have "findnumblocks [10, 2] [5, 2] = Inr [2, 1]"
    using numblocks_10x2 by (simp add: data_10x2_def shape_def blockshape_of_def)
  moreover have "replicate 2 (5::nat) = [5, 5]"
    by (simp add: numeral_2_eq_2)
  ultimately show ?thesis
    by (simp add: qr_def ndim_def shape_def blockshape_of_def name_or_next_def Array_def
        blockdims_from_blockshape_def q_10x2_def r_10x2_def data_10x2_def Let_def)
qed

section \<open>Rejection\<close>

text \<open>
  C2. An input whose number of dimensions is not two, or whose second axis is cut into
  more than one block, makes \<open>qr\<close> raise the validation error: the call returns no pair
  of arrays, hence no graph at all.
\<close>

theorem qr_rejects_bad_shape:
  "ndim data \<noteq> 2 \<or> 1 < length (blockdims data ! 1) \<Longrightarrow>
     fst (qr data name_opt names) = Inl ValueError"
  by (auto simp: qr_ValueError_iff)

theorem qr_rejects_bad_shape_witness:
  "ndim data_1d = 1 \<and> fst (qr data_1d None names_init) = Inl ValueError \<and>
   ndim data_2cols = 2 \<and> length (blockdims data_2cols ! 1) = 2 \<and>
   fst (qr data_2cols (Some ''a'') names_init) = Inl ValueError"
  using qr_rejects_bad_shape [of data_1d None names_init]
    qr_rejects_bad_shape [of data_2cols "Some ''a''" names_init]
  by (simp add: data_1d_def data_2cols_def ndim_def shape_def)

text \<open>
  C10. A call that raises the validation error leaves the name generator as it found
  it: the check comes before the draw. A later call therefore behaves as if the
  rejected call had never been made; in particular an unnamed call draws the same name.
\<close>

theorem qr_rejection_keeps_names:
  "fst (qr data name_opt names) = Inl ValueError \<Longrightarrow>
     snd (qr data name_opt names) = names \<and>
     name_or_next None (snd (qr data name_opt names)) = name_or_next None names \<and>
     qr data' name_opt' (snd (qr data name_opt names)) = qr data' name_opt' names"
  by (simp add: qr_ValueError_iff qr_reject)

theorem qr_rejection_keeps_names_witness:
  "fst (qr data_2cols None 7) = Inl ValueError \<and>
   snd (qr data_2cols None 7) = 7 \<and>
   name_or_next None (snd (qr data_2cols None 7)) = (''tsqr_7'', 8)"
proof -
  have r: "fst (qr data_2cols None 7) = Inl ValueError"
    by (simp add: qr_ValueError_iff data_2cols_def ndim_def shape_def)
  have "str_nat 7 = ''7''"
    by (simp add: str_nat.simps digit_char_def)
  with r qr_rejection_keeps_names [OF r, of data_2cols None] show ?thesis
    by (simp add: name_or_next_def next_names_def)
qed

section \<open>Lookups in the two graphs\<close>

lemma dsk_q_stacked:
  "dsk_q prefix data [nb, Suc 0] n (prefix @ ''R_st1_stacked'', [0, 0]) =
     Some (Task vstack (map (\<lambda>i. Ref (prefix @ ''R_st1'', [i, 0])) [0..<nb]))"
  by (simp add: dsk_q_def map_add_def stage_dicts dict_of_blocks)

lemma dsk_r_stacked:
  "dsk_r prefix data [nb, Suc 0] (prefix @ ''R_st1_stacked'', [0, 0]) =
     Some (Task vstack (map (\<lambda>i. Ref (prefix @ ''R_st1'', [i, 0])) [0..<nb]))"
  by (simp add: dsk_r_def map_add_def stage_dicts dict_of_blocks)

lemma dsk_q_R_st1:
  "i < nb \<Longrightarrow> dsk_q prefix data [nb, Suc 0] n (prefix @ ''R_st1'', [i, 0]) =
     Some (Task operator_getitem [Ref (prefix @ ''QR_st1'', [i, 0]), Index 1])"
  by (auto simp add: dsk_q_def map_add_def stage_dicts dict_of_blocks)

lemma dsk_r_R_st1:
  "i < nb \<Longrightarrow> dsk_r prefix data [nb, Suc 0] (prefix @ ''R_st1'', [i, 0]) =
     Some (Task operator_getitem [Ref (prefix @ ''QR_st1'', [i, 0]), Index 1])"
  by (auto simp add: dsk_r_def map_add_def stage_dicts dict_of_blocks)

lemma dsk_q_Q_st1:
  "i < nb \<Longrightarrow> dsk_q prefix data [nb, Suc 0] n (prefix @ ''Q_st1'', [i, 0]) =
     Some (Task operator_getitem [Ref (prefix @ ''QR_st1'', [i, 0]), Index 0])"
  by (auto simp add: dsk_q_def map_add_def stage_dicts dict_of_blocks)

lemma dsk_q_QR_st1:
  "i < nb \<Longrightarrow> dsk_q prefix data [nb, Suc 0] n (prefix @ ''QR_st1'', [i, 0]) =
     Some (Task np_linalg_qr [Ref (name data, [i, 0])])"
  by (auto simp add: dsk_q_def map_add_def stage_dicts dict_of_blocks)

lemma dsk_r_QR_st1:
  "i < nb \<Longrightarrow> dsk_r prefix data [nb, Suc 0] (prefix @ ''QR_st1'', [i, 0]) =
     Some (Task np_linalg_qr [Ref (name data, [i, 0])])"
  by (auto simp add: dsk_r_def map_add_def stage_dicts dict_of_blocks)

lemma dsk_q_Q_st2:
  "i < nb \<Longrightarrow> dsk_q prefix data [nb, Suc 0] n (prefix @ ''Q_st2'', [i, 0]) =
     Some (Task operator_getitem
             [Ref (prefix @ ''Q_st2_aux'', [0, 0]), Slices [(i * n, (i + 1) * n), (0, n)]])"
  by (auto simp add: dsk_q_def map_add_def stage_dicts dict_of_blocks)

lemma dsk_q_Q_st2_aux:
  "dsk_q prefix data [nb, Suc 0] n (prefix @ ''Q_st2_aux'', [0, 0]) =
     Some (Task operator_getitem [Ref (prefix @ ''QR_st2'', [0, 0]), Index 0])"
  by (auto simp add: dsk_q_def map_add_def stage_dicts dict_of_blocks)

lemma dsk_q_QR_st2:
  "dsk_q prefix data [nb, Suc 0] n (prefix @ ''QR_st2'', [0, 0]) =
     Some (Task np_linalg_qr [Ref (prefix @ ''R_st1_stacked'', [0, 0])])"
  by (auto simp add: dsk_q_def map_add_def stage_dicts dict_of_blocks)

lemma dsk_q_Q:
  "i < nb \<Longrightarrow> dsk_q prefix data [nb, Suc 0] n (prefix @ ''Q'', [i, 0]) =
     Some (Task np_dot [Ref (prefix @ ''Q_st1'', [i, 0]), Ref (prefix @ ''Q_st2'', [i, 0])])"
  by (auto simp add: dsk_q_def map_add_def stage_dicts dict_of_blocks)

lemma dom_dsk_r_st1:
  "dom (dsk_r_st1 prefix [nb, Suc 0] :: 'v graph) = {(prefix @ ''R_st1'', [i, 0]) | i. i < nb}"
  by (auto simp: dom_def stage_dicts dict_of_blocks)

lemma qr_outputs:
  assumes "qr data name_opt names = (Inr (q, r), names')"
    and "findnumblocks (shape data) (blockshape_of data) = Inr numblocks"
    and "prefix = fst (name_or_next name_opt names) @ ''_''"
  shows "numblocks = [numblocks ! 0, Suc 0] \<and>
         dask q = dsk_q prefix data numblocks (shape data ! 1) \<and>
         dask r = dsk_r prefix data numblocks \<and>
         name q = prefix @ ''Q'' \<and> name r = prefix @ ''R''"
proof -
  from assms(1) obtain br rest n nb m p where
    nb: "findnumblocks (shape data) (blockshape_of data) = Inr [nb, Suc 0]"
    and shp: "shape data = [m, n]"
    and p: "p = fst (name_or_next name_opt names) @ ''_''"
    and q: "q = \<lparr>dask = dsk_q p data [nb, Suc 0] n, name = p @ ''Q'',
          blockdims = [replicate (m div br) br @ (if m mod br \<noteq> 0 then [m mod br] else []),
                       [n]]\<rparr>"
    and r: "r = \<lparr>dask = dsk_r p data [nb, Suc 0], name = p @ ''R'', blockdims = [[n], [n]]\<rparr>"
    by (rule qr_success)
  from nb assms(2) have numblocks: "numblocks = [nb, Suc 0]" by simp
  from p assms(3) have pp: "prefix = p" by simp
  show ?thesis
    unfolding numblocks q r pp shp by simp
qed

section \<open>Stage 2: the stack task\<close>

text \<open>
  C4. In the graph of a successful call the stack task \<open>(prefix_R_st1_stacked, 0, 0)\<close>
  applies \<open>vstack\<close> to the keys \<open>(prefix_R_st1, i, 0)\<close> for \<open>i = 0, ..., nblocks - 1\<close> in
  this order; these are exactly the keys of the local triangular extractions, each of
  which takes component 1 of the local factorisation of its block.
\<close>

theorem stack_task_blocks_ascending:
  assumes "qr data name_opt names = (Inr (q, r), names')"
    and "findnumblocks (shape data) (blockshape_of data) = Inr numblocks"
    and "prefix = fst (name_or_next name_opt names) @ ''_''"
  shows
    "dask q (prefix @ ''R_st1_stacked'', [0, 0]) =
       Some (Task vstack (map (\<lambda>i. Ref (prefix @ ''R_st1'', [i, 0])) [0..<numblocks ! 0])) \<and>
     dask r (prefix @ ''R_st1_stacked'', [0, 0]) =
       Some (Task vstack (map (\<lambda>i. Ref (prefix @ ''R_st1'', [i, 0])) [0..<numblocks ! 0])) \<and>
     deps (Task vstack (to_stack prefix numblocks) :: 'v recipe) =
       dom (dsk_r_st1 prefix numblocks :: 'v graph) \<and>
     (\<forall>i<numblocks ! 0.
        dask q (prefix @ ''R_st1'', [i, 0]) =
          Some (Task operator_getitem [Ref (prefix @ ''QR_st1'', [i, 0]), Index 1]) \<and>
        dask r (prefix @ ''R_st1'', [i, 0]) =
          Some (Task operator_getitem [Ref (prefix @ ''QR_st1'', [i, 0]), Index 1]))"
proof -
  from qr_outputs [OF assms] obtain nb where
    "numblocks = [nb, Suc 0]" "dask q = dsk_q prefix data [nb, Suc 0] (shape data ! 1)"
    "dask r = dsk_r prefix data [nb, Suc 0]"
    by metis
  then show ?thesis
    by (auto simp: dsk_q_stacked dsk_r_stacked dsk_q_R_st1 dsk_r_R_st1 dom_dsk_r_st1 to_stack_def)
qed

theorem stack_task_blocks_ascending_witness:
  "qr data_10x2 (Some ''a'') names_init = (Inr (q_10x2, r_10x2), names_init) \<and>
   dask q_10x2 (''a_R_st1_stacked'', [0, 0]) =
     Some (Task vstack [Ref (''a_R_st1'', [0, 0]), Ref (''a_R_st1'', [1, 0])]) \<and>
   dask r_10x2 (''a_R_st1'', [1, 0]) =
     Some (Task operator_getitem [Ref (''a_QR_st1'', [1, 0]), Index 1])"
proof -
  note t = stack_task_blocks_ascending [OF qr_10x2 numblocks_10x2, where prefix = "''a_''",
      simplified name_or_next_def, simplified]
  have "[0..<2] = [0, Suc 0]"
    by (simp add: numeral_2_eq_2)
  moreover from t have "dask r_10x2 (''a_R_st1'', [Suc 0, 0]) =
      Some (Task operator_getitem [Ref (''a_QR_st1'', [Suc 0, 0]), Index 1])"
    by auto
  ultimately show ?thesis
    using t [THEN conjunct1] qr_10x2 [of names_init] by simp
qed

section \<open>Stage 3: the slice tasks\<close>

lemma slices_cover: "(\<Union>i<nb. {i * n..<(i + 1) * n}) = {0..<nb * (n::nat)}"
proof (induction nb)
  case 0
  then show ?case by simp
next
  case (Suc nb)
  have "{0..<nb * n} \<union> {nb * n..<nb * n + n} = {0..<nb * n + n}"
    by auto
  with Suc show ?case
    by (simp add: lessThan_Suc Un_commute add.commute)
qed

lemma slices_disjoint:
  assumes "i \<noteq> j"
  shows "{i * n..<(i + 1) * n} \<inter> {j * n..<(j + 1) * (n::nat)} = {}"
proof -
  have "(a + 1) * n \<le> b * n" if "a < b" for a b
    using that mult_le_mono1 [of "Suc a" b n] by simp
  from this [of i j] this [of j i] assms show ?thesis
    by (cases "i < j") auto
qed

text \<open>
  C5. In the graph of a successful call the slice task of block \<open>i\<close> takes rows
  \<open>i * n\<close> up to \<open>(i + 1) * n\<close> (excluded) of the orthogonal auxiliary
  \<open>(prefix_Q_st2_aux, 0, 0)\<close>; the row ranges of different blocks do not overlap and
  together they are the rows \<open>0\<close> up to \<open>nblocks * n\<close>.
\<close>

theorem slice_tasks_partition_auxiliary:
  assumes "qr data name_opt names = (Inr (q, r), names')"
    and "findnumblocks (shape data) (blockshape_of data) = Inr numblocks"
    and "prefix = fst (name_or_next name_opt names) @ ''_''"
    and "n = shape data ! 1"
  shows
    "(\<forall>i<numblocks ! 0.
        dask q (prefix @ ''Q_st2'', [i, 0]) =
          Some (Task operator_getitem
                  [Ref (prefix @ ''Q_st2_aux'', [0, 0]),
                   Slices [(i * n, (i + 1) * n), (0, n)]]) \<and>
        row_range (the (dask q (prefix @ ''Q_st2'', [i, 0]))) = {i * n..<(i + 1) * n}) \<and>
     dask q (prefix @ ''Q_st2_aux'', [0, 0]) =
       Some (Task operator_getitem [Ref (prefix @ ''QR_st2'', [0, 0]), Index 0]) \<and>
     (\<forall>i<numblocks ! 0. \<forall>j<numblocks ! 0. i \<noteq> j \<longrightarrow>
        row_range (the (dask q (prefix @ ''Q_st2'', [i, 0]))) \<inter>
        row_range (the (dask q (prefix @ ''Q_st2'', [j, 0]))) = {}) \<and>
     (\<Union>i<numblocks ! 0. row_range (the (dask q (prefix @ ''Q_st2'', [i, 0])))) =
       {0..<numblocks ! 0 * n}"
proof -
  from qr_outputs [OF assms(1-3)] assms(4) obtain nb where
    nb: "numblocks = [nb, Suc 0]" and q: "dask q = dsk_q prefix data [nb, Suc 0] n"
    by metis
  have rr: "\<And>i. i < nb \<Longrightarrow>
      row_range (the (dask q (prefix @ ''Q_st2'', [i, 0]))) = {i * n..<(i + 1) * n}"
    by (simp add: q dsk_q_Q_st2)
  have "(\<Union>i<nb. row_range (the (dask q (prefix @ ''Q_st2'', [i, 0])))) =
      (\<Union>i<nb. {i * n..<(i + 1) * n})"
    using rr by auto
  also have "\<dots> = {0..<nb * n}"
    by (rule slices_cover)
  finally have cover:
    "(\<Union>i<nb. row_range (the (dask q (prefix @ ''Q_st2'', [i, 0])))) = {0..<nb * n}" .
  have disj: "row_range (the (dask q (prefix @ ''Q_st2'', [i, 0]))) \<inter>
      row_range (the (dask q (prefix @ ''Q_st2'', [j, 0]))) = {}"
    if "i < nb" "j < nb" "i \<noteq> j" for i j
    unfolding rr [OF that(1)] rr [OF that(2)] using that(3) by (rule slices_disjoint)
  show ?thesis
    unfolding nb nth_Cons_0
    by (intro conjI allI impI rr cover disj) (simp_all add: q dsk_q_Q_st2 dsk_q_Q_st2_aux)
qed

theorem slice_tasks_partition_auxiliary_witness:
  "qr data_10x2 (Some ''a'') names_init = (Inr (q_10x2, r_10x2), names_init) \<and>
   dask q_10x2 (''a_Q_st2'', [1, 0]) =
     Some (Task operator_getitem [Ref (''a_Q_st2_aux'', [0, 0]), Slices [(2, 4), (0, 2)]]) \<and>
   row_range (the (dask q_10x2 (''a_Q_st2'', [0, 0]))) = {0..<2} \<and>
   row_range (the (dask q_10x2 (''a_Q_st2'', [1, 0]))) = {2..<4} \<and>
   row_range (the (dask q_10x2 (''a_Q_st2'', [0, 0]))) \<union>
   row_range (the (dask q_10x2 (''a_Q_st2'', [1, 0]))) = {0..<4}"
proof -
  have s: "2 = shape data_10x2 ! 1"
    by (simp add: data_10x2_def shape_def)
  have p: "''a_'' = fst (name_or_next (Some ''a'') names_init) @ ''_''"
    by (simp add: name_or_next_def)
  note t = slice_tasks_partition_auxiliary [OF qr_10x2 numblocks_10x2 p s, simplified]
  have u: "{..<2::nat} = {0, Suc 0}"
    by auto
  from t [THEN conjunct1] have "\<forall>i<2. dask q_10x2 (''a_Q_st2'', [i, 0]) =
      Some (Task operator_getitem
        [Ref (''a_Q_st2_aux'', [0, 0]), Slices [(i * 2, Suc (Suc (i * 2))), (0, 2)]])"
    by blast
  then have a: "dask q_10x2 (''a_Q_st2'', [0, 0]) =
      Some (Task operator_getitem [Ref (''a_Q_st2_aux'', [0, 0]), Slices [(0, 2), (0, 2)]])"
    and b: "dask q_10x2 (''a_Q_st2'', [Suc 0, 0]) =
      Some (Task operator_getitem [Ref (''a_Q_st2_aux'', [0, 0]), Slices [(2, 4), (0, 2)]])"
    by (auto simp: numeral_2_eq_2)
  from t [THEN conjunct2, THEN conjunct2, THEN conjunct2]
  have "(\<Union>i<2. row_range (the (dask q_10x2 (''a_Q_st2'', [i, 0])))) = {0..<4}"
    by simp
  with a b show ?thesis
    using qr_10x2 [of names_init] by (simp add: u)
qed

section \<open>Stage 1: no dependency across blocks\<close>

text \<open>
  C6. In the graph of a successful call the three Stage 1 tasks of block \<open>i\<close> (the local
  factorisation and the two extractions) refer only to block \<open>i\<close> of the input or to the
  local factorisation of block \<open>i\<close>: none of their dependencies is a key of another
  block.
\<close>

theorem stage1_tasks_stay_in_block:
  assumes "qr data name_opt names = (Inr (q, r), names')"
    and "findnumblocks (shape data) (blockshape_of data) = Inr numblocks"
    and "prefix = fst (name_or_next name_opt names) @ ''_''"
  shows
    "\<forall>i<numblocks ! 0.
       dask q (prefix @ ''QR_st1'', [i, 0]) = Some (Task np_linalg_qr [Ref (name data, [i, 0])]) \<and>
       dask q (prefix @ ''Q_st1'', [i, 0]) =
         Some (Task operator_getitem [Ref (prefix @ ''QR_st1'', [i, 0]), Index 0]) \<and>
       dask q (prefix @ ''R_st1'', [i, 0]) =
         Some (Task operator_getitem [Ref (prefix @ ''QR_st1'', [i, 0]), Index 1]) \<and>
       dask r (prefix @ ''QR_st1'', [i, 0]) = dask q (prefix @ ''QR_st1'', [i, 0]) \<and>
       dask r (prefix @ ''R_st1'', [i, 0]) = dask q (prefix @ ''R_st1'', [i, 0]) \<and>
       (\<forall>s\<in>{''QR_st1'', ''Q_st1'', ''R_st1''}.
          \<forall>k\<in>deps (the (dask q (prefix @ s, [i, 0]))).
            (k = (name data, [i, 0]) \<or> k = (prefix @ ''QR_st1'', [i, 0])) \<and>
            (\<forall>j. j \<noteq> i \<longrightarrow> snd k \<noteq> [j, 0]))"
proof -
  from qr_outputs [OF assms] obtain nb where
    "numblocks = [nb, Suc 0]" "dask q = dsk_q prefix data [nb, Suc 0] (shape data ! 1)"
    "dask r = dsk_r prefix data [nb, Suc 0]"
    by metis
  then show ?thesis
    by (auto simp: dsk_q_QR_st1 dsk_q_Q_st1 dsk_q_R_st1 dsk_r_QR_st1 dsk_r_R_st1)
qed

theorem stage1_tasks_stay_in_block_witness:
  "qr data_10x2 (Some ''a'') names_init = (Inr (q_10x2, r_10x2), names_init) \<and>
   deps (the (dask q_10x2 (''a_QR_st1'', [1, 0]))) = {(''x'', [1, 0])} \<and>
   deps (the (dask q_10x2 (''a_Q_st1'', [1, 0]))) = {(''a_QR_st1'', [1, 0])} \<and>
   deps (the (dask q_10x2 (''a_R_st1'', [0, 0]))) = {(''a_QR_st1'', [0, 0])}"
proof -
  have p: "''a_'' = fst (name_or_next (Some ''a'') names_init) @ ''_''"
    by (simp add: name_or_next_def)
  note t = stage1_tasks_stay_in_block [OF qr_10x2 numblocks_10x2 p, simplified]
  from t have "dask q_10x2 (''a_QR_st1'', [Suc 0, 0]) =
      Some (Task np_linalg_qr [Ref (name data_10x2, [Suc 0, 0])])"
    and "dask q_10x2 (''a_Q_st1'', [Suc 0, 0]) =
      Some (Task operator_getitem [Ref (''a_QR_st1'', [Suc 0, 0]), Index 0])"
    and "dask q_10x2 (''a_R_st1'', [0, 0]) =
      Some (Task operator_getitem [Ref (''a_QR_st1'', [0, 0]), Index 1])"
    by auto
  then show ?thesis
    using qr_10x2 [of names_init] by (auto simp: data_10x2_def)
qed

section \<open>The two graphs\<close>

lemma dom_dict_of_blocks:
  "dom (dict_of (map (\<lambda>i. ((nm, [i, 0]), g i)) [0..<nb])) = {(nm, [i, 0]) | i. i < nb}"
  by (auto simp: dom_def dict_of_blocks)

lemma fst_stage_qr_st1:
  "k \<in> dom (dsk_qr_st1 prefix dn [nb, Suc 0]) \<Longrightarrow> fst k = prefix @ ''QR_st1''"
  "k \<in> dom (dsk_q_st1 prefix [nb, Suc 0]) \<Longrightarrow> fst k = prefix @ ''Q_st1''"
  "k \<in> dom (dsk_r_st1 prefix [nb, Suc 0]) \<Longrightarrow> fst k = prefix @ ''R_st1''"
  "k \<in> dom (dsk_r_st1_stacked prefix [nb, Suc 0]) \<Longrightarrow> fst k = prefix @ ''R_st1_stacked''"
  "k \<in> dom (dsk_qr_st2 prefix) \<Longrightarrow> fst k = prefix @ ''QR_st2''"
  "k \<in> dom (dsk_q_st2_aux prefix) \<Longrightarrow> fst k = prefix @ ''Q_st2_aux''"
  "k \<in> dom (dsk_q_st2 prefix [nb, Suc 0] n) \<Longrightarrow> fst k = prefix @ ''Q_st2''"
  "k \<in> dom (dsk_r_st2 prefix) \<Longrightarrow> fst k = prefix @ ''R''"
  "k \<in> dom (dsk_q_st3 prefix [nb, Suc 0]) \<Longrightarrow> fst k = prefix @ ''Q''"
  by (auto simp: dom_def stage_dicts dict_of_blocks split: if_splits)

lemma graph_map_add_disjoint:
  "(\<And>k. k \<in> dom m1 \<Longrightarrow> k \<in> dom m2 \<Longrightarrow> False) \<Longrightarrow>
     Map.graph (m1 ++ m2) = Map.graph m1 \<union> Map.graph m2"
  by (rule graph_map_add) auto

text \<open>
  C7, as the code has it. The graph of the triangular factor is the input's graph
  updated with the Stage 1 local factorisations and triangular extractions and with the
  stack, the global factorisation and the triangular extraction of Stage 2 (a key of
  the input's graph that is also a new key is replaced). These five dictionaries have
  pairwise disjoint keys, so that together they are the plain union of their items. The
  array has one block and shape \<open>(n, n)\<close>.
\<close>

theorem r_graph_is_union:
  assumes "qr data name_opt names = (Inr (q, r), names')"
    and "findnumblocks (shape data) (blockshape_of data) = Inr numblocks"
    and "prefix = fst (name_or_next name_opt names) @ ''_''"
    and "n = shape data ! 1"
    and "new = dsk_qr_st1 prefix (name data) numblocks ++ dsk_r_st1 prefix numblocks
           ++ dsk_r_st1_stacked prefix numblocks ++ dsk_qr_st2 prefix ++ dsk_r_st2 prefix"
  shows
    "dask r = dask data ++ new \<and>
     Map.graph new =
       Map.graph (dsk_qr_st1 prefix (name data) numblocks) \<union>
       Map.graph (dsk_r_st1 prefix numblocks) \<union>
       Map.graph (dsk_r_st1_stacked prefix numblocks) \<union>
       Map.graph (dsk_qr_st2 prefix) \<union> Map.graph (dsk_r_st2 prefix) \<and>
     name r = prefix @ ''R'' \<and> blockdims r = [[n], [n]] \<and> shape r = [n, n]"
proof -
  from assms(1) obtain br rest n' nb m p where
    nb: "findnumblocks (shape data) (blockshape_of data) = Inr [nb, Suc 0]"
    and shp: "shape data = [m, n']"
    and p: "p = fst (name_or_next name_opt names) @ ''_''"
    and r: "r = \<lparr>dask = dsk_r p data [nb, Suc 0], name = p @ ''R'', blockdims = [[n'], [n']]\<rparr>"
    by (rule qr_success)
  from nb assms(2) have numblocks: "numblocks = [nb, Suc 0]" by simp
  from p assms(3) have pp: "p = prefix" by simp
  from shp assms(4) have n: "n' = n" by simp
  have g: "Map.graph new =
       Map.graph (dsk_qr_st1 prefix (name data) numblocks) \<union>
       Map.graph (dsk_r_st1 prefix numblocks) \<union>
       Map.graph (dsk_r_st1_stacked prefix numblocks) \<union>
       Map.graph (dsk_qr_st2 prefix) \<union> Map.graph (dsk_r_st2 prefix)"
    unfolding assms(5) numblocks
    by (intro graph_map_add_disjoint [THEN trans] arg_cong2 [where f = "(\<union>)"] refl)
       (auto dest!: fst_stage_qr_st1)
  show ?thesis
    using g by (simp add: r pp n shape_def dsk_r_def assms(5) numblocks)
qed


theorem r_graph_is_union_witness:
  "qr data_10x2 (Some ''a'') names_init = (Inr (q_10x2, r_10x2), names_init) \<and>
   dask r_10x2 =
     dask data_10x2 ++
       (dsk_qr_st1 ''a_'' ''x'' [2, 1] ++ dsk_r_st1 ''a_'' [2, 1] ++ dsk_r_st1_stacked ''a_'' [2, 1]
          ++ dsk_qr_st2 ''a_'' ++ dsk_r_st2 ''a_'') \<and>
   name r_10x2 = ''a_R'' \<and> blockdims r_10x2 = [[2], [2]] \<and> shape r_10x2 = [2, 2]"
proof -
  have p: "''a_'' = fst (name_or_next (Some ''a'') names_init) @ ''_''"
    by (simp add: name_or_next_def)
  have s: "2 = shape data_10x2 ! 1"
    by (simp add: data_10x2_def shape_def)
  have x: "name data_10x2 = ''x''"
    by (simp add: data_10x2_def)
  show ?thesis
    using r_graph_is_union [OF qr_10x2 numblocks_10x2 p s refl] qr_10x2 [of names_init]
    by (simp add: x)
qed

text \<open>
  The claim C7 as stated leaves the local factorisations out of the union: for the
  10 by 2 input the graph of the triangular factor is not the union of the input's
  graph, the triangular extractions and the three Stage 2 dictionaries.
\<close>

theorem r_graph_has_local_qr_tasks:
  "qr data_10x2 (Some ''a'') names_init = (Inr (q_10x2, r_10x2), names_init) \<and>
   dask r_10x2 \<noteq>
     dask data_10x2 ++ dsk_r_st1 ''a_'' [2, 1] ++ dsk_r_st1_stacked ''a_'' [2, 1]
       ++ dsk_qr_st2 ''a_'' ++ dsk_r_st2 ''a_''"
proof -
  have "dask r_10x2 (''a_QR_st1'', [0, 0]) = Some (Task np_linalg_qr [Ref (''x'', [0, 0])])"
    using dsk_r_QR_st1 [of 0 2 "''a_''" data_10x2]
    by (simp add: r_10x2_def data_10x2_def)
  moreover have "(dask data_10x2 ++ dsk_r_st1 ''a_'' [2, 1] ++ dsk_r_st1_stacked ''a_'' [2, 1]
       ++ dsk_qr_st2 ''a_'' ++ dsk_r_st2 ''a_'') (''a_QR_st1'', [0, 0]) = None"
    by (simp add: map_add_def stage_dicts dict_of_blocks data_10x2_def)
  ultimately show ?thesis
    using qr_10x2 [of names_init] by (metis option.distinct(1))
qed

text \<open>
  An axis is uniformly blocked when every block has the extent of the first one, except
  the last, which may be shorter.
\<close>

definition uniform_rows :: "nat list \<Rightarrow> bool" where
  "uniform_rows rows \<longleftrightarrow>
     list_all (\<lambda>x. x = hd rows) (butlast rows) \<and> 0 < last rows \<and> last rows \<le> hd rows"

lemma uniform_rows_eq:
  assumes "rows = br # rest" and "0 < br" and "uniform_rows rows" and "m = sum_list rows"
  shows "rows = replicate (m div br) br @ (if m mod br \<noteq> 0 then [m mod br] else [])"
proof -
  define k where "k = length (butlast rows)"
  define l where "l = last rows"
  from assms(1,3) have "\<forall>x\<in>set (butlast rows). x = br"
    by (simp add: uniform_rows_def list_all_iff)
  then have bl: "butlast rows = replicate k br"
    unfolding k_def using replicate_length_same [of "butlast rows" br] by simp
  from assms(1) have rows: "rows = replicate k br @ [l]"
    unfolding l_def bl [symmetric] by simp
  from assms(1,3) have l: "0 < l" "l \<le> br"
    by (simp_all add: uniform_rows_def l_def)
  have m: "m = k * br + l"
    by (simp add: assms(4) rows [unfolded assms(1)[symmetric]] sum_list_replicate)
  show ?thesis
  proof (cases "l = br")
    case True
    then have "m = Suc k * br" by (simp add: m)
    with assms(2) have "m div br = Suc k" "m mod br = 0" by simp_all
    with rows True show ?thesis
      by (simp add: replicate_append_same)
  next
    case False
    with l have "l < br" by simp
    with m have "m div br = k" "m mod br = l" by simp_all
    with rows l show ?thesis by simp
  qed
qed


definition data_irregular :: "unit array" where
  "data_irregular =
     \<lparr>dask = [(''y'', [0, 0]) \<mapsto> Given (), (''y'', [1, 0]) \<mapsto> Given (),
              (''y'', [2, 0]) \<mapsto> Given ()],
      name = ''y'', blockdims = [[2, 5, 5], [1]]\<rparr>"

definition q_irregular :: "unit array" where
  "q_irregular =
     \<lparr>dask = dsk_q ''a_'' data_irregular [6, 1] 1, name = ''a_Q'',
      blockdims = [[2, 2, 2, 2, 2, 2], [1]]\<rparr>"

definition r_irregular :: "unit array" where
  "r_irregular =
     \<lparr>dask = dsk_r ''a_'' data_irregular [6, 1], name = ''a_R'', blockdims = [[1], [1]]\<rparr>"

lemma qr_irregular:
  "qr data_irregular (Some ''a'') names = (Inr (q_irregular, r_irregular), names)"
proof -
  have "findnumblocks [12, 1] [2, 1] = Inr [6, 1]"
    by (simp add: findnumblocks_def float_eval)
  moreover have "replicate 6 (2::nat) = [2, 2, 2, 2, 2, 2]"
    by (simp add: eval_nat_numeral)
  ultimately show ?thesis
    by (simp add: qr_def ndim_def shape_def blockshape_of_def name_or_next_def Array_def
        blockdims_from_blockshape_def q_irregular_def r_irregular_def data_irregular_def Let_def)
qed

text \<open>
  C8, as the code has it. The graph of the orthogonal factor is the input's graph
  updated with the three Stage 1 dictionaries, the stack and the global factorisation,
  the extraction of the orthogonal auxiliary, the slices and the products (not the
  triangular extraction of Stage 2); these eight dictionaries have pairwise disjoint
  keys. The array has the shape of the input, and its partitioning is made of full
  blocks of the first block's height followed by a shorter block for the remainder, in
  one column block: the partitioning of the input when the input is uniformly blocked.
\<close>

theorem q_graph_is_union:
  assumes "qr data name_opt names = (Inr (q, r), names')"
    and "findnumblocks (shape data) (blockshape_of data) = Inr numblocks"
    and "prefix = fst (name_or_next name_opt names) @ ''_''"
    and "n = shape data ! 1"
    and "m = shape data ! 0"
    and "br = hd (blockdims data ! 0)"
    and "new = dsk_qr_st1 prefix (name data) numblocks ++ dsk_q_st1 prefix numblocks
           ++ dsk_r_st1 prefix numblocks ++ dsk_r_st1_stacked prefix numblocks
           ++ dsk_qr_st2 prefix ++ dsk_q_st2_aux prefix ++ dsk_q_st2 prefix numblocks n
           ++ dsk_q_st3 prefix numblocks"
  shows
    "dask q = dask data ++ new \<and>
     Map.graph new =
       Map.graph (dsk_qr_st1 prefix (name data) numblocks) \<union>
       Map.graph (dsk_q_st1 prefix numblocks) \<union> Map.graph (dsk_r_st1 prefix numblocks) \<union>
       Map.graph (dsk_r_st1_stacked prefix numblocks) \<union> Map.graph (dsk_qr_st2 prefix) \<union>
       Map.graph (dsk_q_st2_aux prefix) \<union> Map.graph (dsk_q_st2 prefix numblocks n) \<union>
       Map.graph (dsk_q_st3 prefix numblocks) \<and>
     name q = prefix @ ''Q'' \<and> shape q = shape data \<and>
     blockdims q =
       [replicate (m div br) br @ (if m mod br \<noteq> 0 then [m mod br] else []), [n]] \<and>
     (uniform_rows (blockdims data ! 0) \<longrightarrow> blockdims q = blockdims data)"
proof -
  from assms(1) obtain br' rest n' nb m' p where
    nb: "findnumblocks (shape data) (blockshape_of data) = Inr [nb, Suc 0]"
    and bd: "blockdims data = [br' # rest, [n']]"
    and m': "m' = br' + sum_list rest"
    and br': "0 < br'"
    and shp: "shape data = [m', n']"
    and p: "p = fst (name_or_next name_opt names) @ ''_''"
    and q: "q = \<lparr>dask = dsk_q p data [nb, Suc 0] n', name = p @ ''Q'',
          blockdims = [replicate (m' div br') br' @
                         (if m' mod br' \<noteq> 0 then [m' mod br'] else []), [n']]\<rparr>"
    by (rule qr_success)
  from nb assms(2) have numblocks: "numblocks = [nb, Suc 0]" by simp
  from p assms(3) have pp: "p = prefix" by simp
  from shp assms(4,5) have n: "n' = n" and m: "m' = m" by simp_all
  from bd assms(6) have br: "br' = br" by simp
  have g: "Map.graph new =
       Map.graph (dsk_qr_st1 prefix (name data) numblocks) \<union>
       Map.graph (dsk_q_st1 prefix numblocks) \<union> Map.graph (dsk_r_st1 prefix numblocks) \<union>
       Map.graph (dsk_r_st1_stacked prefix numblocks) \<union> Map.graph (dsk_qr_st2 prefix) \<union>
       Map.graph (dsk_q_st2_aux prefix) \<union> Map.graph (dsk_q_st2 prefix numblocks n) \<union>
       Map.graph (dsk_q_st3 prefix numblocks)"
    unfolding assms(7) numblocks
    by (intro graph_map_add_disjoint [THEN trans] arg_cong2 [where f = "(\<union>)"] refl)
       (auto dest!: fst_stage_qr_st1)
  have "shape q = [m', n']"
    using div_mult_mod_eq [of m' br'] by (auto simp: q shape_def sum_list_replicate)
  with shp have s: "shape q = shape data"
    by simp
  have u: "blockdims q = blockdims data" if "uniform_rows (blockdims data ! 0)"
    using uniform_rows_eq [of "br' # rest" br' rest m'] br' that
    by (simp add: q bd m')
  show ?thesis
    using g s u by (simp add: q [unfolded pp n m br] dsk_q_def assms(7) numblocks)
qed

theorem q_graph_is_union_witness:
  "qr data_10x2 (Some ''a'') names_init = (Inr (q_10x2, r_10x2), names_init) \<and>
   uniform_rows (blockdims data_10x2 ! 0) \<and>
   dask q_10x2 =
     dask data_10x2 ++
       (dsk_qr_st1 ''a_'' ''x'' [2, 1] ++ dsk_q_st1 ''a_'' [2, 1] ++ dsk_r_st1 ''a_'' [2, 1]
          ++ dsk_r_st1_stacked ''a_'' [2, 1] ++ dsk_qr_st2 ''a_'' ++ dsk_q_st2_aux ''a_''
          ++ dsk_q_st2 ''a_'' [2, 1] 2 ++ dsk_q_st3 ''a_'' [2, 1]) \<and>
   name q_10x2 = ''a_Q'' \<and> shape q_10x2 = [10, 2] \<and> blockdims q_10x2 = blockdims data_10x2"
proof -
  have p: "''a_'' = fst (name_or_next (Some ''a'') names_init) @ ''_''"
    by (simp add: name_or_next_def)
  have s: "2 = shape data_10x2 ! 1" "10 = shape data_10x2 ! 0"
    "5 = hd (blockdims data_10x2 ! 0)"
    by (simp_all add: data_10x2_def shape_def)
  have x: "name data_10x2 = ''x''" "shape data_10x2 = [10, 2]"
    by (simp_all add: data_10x2_def shape_def)
  have u: "uniform_rows (blockdims data_10x2 ! 0)"
    by (simp add: data_10x2_def uniform_rows_def)
  note t = q_graph_is_union [OF qr_10x2 numblocks_10x2 p s refl]
  from t u have "blockdims q_10x2 = blockdims data_10x2"
    by blast
  moreover have "dask q_10x2 =
     dask data_10x2 ++
       (dsk_qr_st1 ''a_'' (name data_10x2) [2, 1] ++ dsk_q_st1 ''a_'' [2, 1]
          ++ dsk_r_st1 ''a_'' [2, 1]
          ++ dsk_r_st1_stacked ''a_'' [2, 1] ++ dsk_qr_st2 ''a_'' ++ dsk_q_st2_aux ''a_''
          ++ dsk_q_st2 ''a_'' [2, 1] 2 ++ dsk_q_st3 ''a_'' [2, 1])"
    by (rule t [THEN conjunct1])
  moreover have "name q_10x2 = ''a_Q''"
    using t [THEN conjunct2, THEN conjunct2, THEN conjunct1] by simp
  moreover have "shape q_10x2 = shape data_10x2"
    by (rule t [THEN conjunct2, THEN conjunct2, THEN conjunct2, THEN conjunct1])
  ultimately show ?thesis
    using qr_10x2 [of names_init] u by (simp add: x)
qed

text \<open>
  The claim C8 as stated fails on a matrix whose row blocks have heights 2, 5 and 5:
  the orthogonal factor is cut into six blocks of height 2. Its graph also lacks the
  triangular extraction of Stage 2.
\<close>

theorem q_graph_partitioning_differs:
  "qr data_irregular (Some ''a'') names_init = (Inr (q_irregular, r_irregular), names_init) \<and>
   blockdims data_irregular = [[2, 5, 5], [1]] \<and>
   blockdims q_irregular = [[2, 2, 2, 2, 2, 2], [1]] \<and>
   dsk_r_st2 ''a_'' (''a_R'', [0, 0]) =
     Some (Task operator_getitem [Ref (''a_QR_st2'', [0, 0]), Index 1] :: unit recipe) \<and>
   dask q_irregular (''a_R'', [0, 0]) = None"
  using qr_irregular [of names_init]
  by (simp add: data_irregular_def q_irregular_def dsk_r_st2_def dsk_q_def map_add_def
      stage_dicts dict_of_blocks)

section \<open>Names\<close>

lemma digit_char_inj:
  assumes "a < 10" "b < 10" "digit_char a = digit_char b"
  shows "a = b"
proof -
  have "distinct ''0123456789''" by simp
  from nth_eq_iff_index_eq [OF this, of a b] assms show ?thesis
    by (simp add: digit_char_def)
qed

lemma str_nat_nonempty: "str_nat i \<noteq> []"
  by (subst str_nat.simps) simp

lemma str_nat_inj: "str_nat a = str_nat b \<Longrightarrow> a = b"
proof (induction a arbitrary: b rule: str_nat.induct)
  case (1 a)
  show ?case
  proof (cases "a < 10")
    case True
    show ?thesis
    proof (cases "b < 10")
      case b: True
      from "1.prems" True b have "digit_char a = digit_char b"
        by (simp add: str_nat.simps [of a] str_nat.simps [of b])
      with True b show ?thesis by (rule digit_char_inj)
    next
      case False
      with "1.prems" True str_nat_nonempty [of "b div 10"] show ?thesis
        by (simp add: str_nat.simps [of a] str_nat.simps [of b])
    qed
  next
    case False
    show ?thesis
    proof (cases "b < 10")
      case True
      with "1.prems" False str_nat_nonempty [of "a div 10"] show ?thesis
        by (simp add: str_nat.simps [of a] str_nat.simps [of b])
    next
      case b: False
      from "1.prems" False b have
        "str_nat (a div 10) = str_nat (b div 10)" "digit_char (a mod 10) = digit_char (b mod 10)"
        by (simp_all add: str_nat.simps [of a] str_nat.simps [of b])
      with "1.IH" [OF False] have "a div 10 = b div 10" "a mod 10 = b mod 10"
        by (auto intro: digit_char_inj)
      then show ?thesis
        by (metis div_mult_mod_eq)
    qed
  qed
qed

lemma names_mono: "names \<le> snd (qr data name_opt names)"
  by (auto simp: qr_def Let_def name_or_next_def next_names_def
           split: sum.splits option.splits prod.splits)

text \<open>
  The state of the name generator after a sequence of calls of \<open>qr\<close>, made one after
  the other.
\<close>

fun run :: "('v array \<times> string option) list \<Rightarrow> nat \<Rightarrow> nat" where
  "run [] names = names"
| "run ((data, name_opt) # calls) names = run calls (snd (qr data name_opt names))"

lemma run_mono: "names \<le> run calls names"
proof (induction calls arbitrary: names)
  case Nil
  then show ?case by simp
next
  case (Cons c calls)
  obtain d no where c: "c = (d, no)" by (cases c)
  from names_mono [of names d no] Cons [of "snd (qr d no names)"] show ?case
    by (simp add: c)
qed

text \<open>
  Every task a call creates: the nine dictionaries built between the draw of the prefix
  and the assembly of the two graphs, and the names they give to their keys.
\<close>

definition new_tasks :: "string \<Rightarrow> string \<Rightarrow> nat list \<Rightarrow> nat \<Rightarrow> 'v graph" where
  "new_tasks prefix data_name numblocks n =
     dsk_qr_st1 prefix data_name numblocks ++ dsk_q_st1 prefix numblocks
       ++ dsk_r_st1 prefix numblocks ++ dsk_r_st1_stacked prefix numblocks
       ++ dsk_qr_st2 prefix ++ dsk_q_st2_aux prefix ++ dsk_q_st2 prefix numblocks n
       ++ dsk_r_st2 prefix ++ dsk_q_st3 prefix numblocks"

definition suffixes :: "string set" where
  "suffixes = {''QR_st1'', ''Q_st1'', ''R_st1'', ''R_st1_stacked'', ''QR_st2'', ''Q_st2_aux'',
     ''Q_st2'', ''R'', ''Q''}"

lemma dict_of_map_of: "dict_of kvs = map_of (rev kvs)"
  by (induction kvs rule: rev_induct) (auto simp: dict_of_snoc dict_of_Nil)

lemma dom_dict_of: "dom (dict_of kvs) = fst ` set kvs"
  by (simp add: dict_of_map_of dom_map_of_conv_image_fst)

lemma new_tasks_names:
  "k \<in> dom (new_tasks prefix dn numblocks n) \<Longrightarrow> \<exists>suf\<in>suffixes. fst k = prefix @ suf"
  by (auto simp: new_tasks_def suffixes_def dsk_qr_st1_def dsk_q_st1_def dsk_r_st1_def
      dsk_r_st1_stacked_def dsk_qr_st2_def dsk_q_st2_aux_def dsk_q_st2_def dsk_r_st2_def
      dsk_q_st3_def top_def dom_dict_of split: if_splits)

lemma suffix_clash:
  assumes "a @ ''_'' @ s = b @ ''_'' @ t" "s \<in> suffixes" "t \<in> suffixes"
  shows "a = b"
proof -
  from assms(1) have "rev s @ ''_'' @ rev a = rev t @ ''_'' @ rev b"
    by (metis append.assoc rev_append rev_singleton_conv rev.simps(2) rev_rev_ident)
  with assms(2,3) have "rev a = rev b"
    unfolding suffixes_def by auto
  then show ?thesis by simp
qed


definition q_10x2_for :: "string \<Rightarrow> unit array" where
  "q_10x2_for prefix =
     \<lparr>dask = dsk_q prefix data_10x2 [2, 1] 2, name = prefix @ ''Q'', blockdims = [[5, 5], [2]]\<rparr>"

definition r_10x2_for :: "string \<Rightarrow> unit array" where
  "r_10x2_for prefix =
     \<lparr>dask = dsk_r prefix data_10x2 [2, 1], name = prefix @ ''R'', blockdims = [[2], [2]]\<rparr>"

lemma qr_10x2_any:
  "qr data_10x2 name_opt names =
     (Inr (q_10x2_for (fst (name_or_next name_opt names) @ ''_''),
           r_10x2_for (fst (name_or_next name_opt names) @ ''_'')),
      snd (name_or_next name_opt names))"
proof -
  have "findnumblocks [10, 2] [5, 2] = Inr [2, 1]"
    using numblocks_10x2 by (simp add: data_10x2_def shape_def blockshape_of_def)
  moreover have "replicate 2 (5::nat) = [5, 5]"
    by (simp add: numeral_2_eq_2)
  ultimately show ?thesis
    by (simp add: qr_def ndim_def shape_def blockshape_of_def Array_def
        blockdims_from_blockshape_def q_10x2_for_def r_10x2_for_def data_10x2_def Let_def
        split: prod.splits)
qed

lemma created_keys:
  fixes data :: "'v array" and new :: "'v graph"
  assumes "qr data name_opt names = (Inr (q, r), names')"
    and "findnumblocks (shape data) (blockshape_of data) = Inr numblocks"
    and "new = new_tasks (fst (name_or_next name_opt names) @ ''_'') (name data) numblocks
                 (shape data ! 1)"
  shows "dom (dask q) \<union> dom (dask r) = dom (dask data) \<union> dom new"
proof -
  note o = qr_outputs [OF assms(1,2) refl]
  show ?thesis
    unfolding o [THEN conjunct2, THEN conjunct1] o [THEN conjunct2, THEN conjunct2, THEN conjunct1]
      assms(3) new_tasks_def dsk_q_def dsk_r_def dom_map_add
    by (simp only: Un_ac Un_left_absorb Un_absorb)
qed

text \<open>
  C9, as the code has it. The keys of the two returned graphs are the keys of the
  input's graph and the keys the call creates. Two calls with distinct non-empty explicit
  names create disjoint sets of keys. Two calls without a name, the second made after
  the first and after any calls in between, draw distinct prefixes (and so create
  disjoint sets of keys). The name of every key created by a call with an explicit name
  begins with that name.
\<close>

theorem names_keep_calls_apart:
  fixes d1 d2 :: "'v array" and calls :: "('v array \<times> string option) list"
    and new1 new2 :: "'v graph"
  assumes "qr d1 no1 s1 = (Inr (q1, r1), s1')"
    and "findnumblocks (shape d1) (blockshape_of d1) = Inr nb1"
    and "new1 = new_tasks (fst (name_or_next no1 s1) @ ''_'') (name d1) nb1 (shape d1 ! 1)"
    and "qr d2 no2 s2 = (Inr (q2, r2), s2')"
    and "findnumblocks (shape d2) (blockshape_of d2) = Inr nb2"
    and "new2 = new_tasks (fst (name_or_next no2 s2) @ ''_'') (name d2) nb2 (shape d2 ! 1)"
  shows
    "dom (dask q1) \<union> dom (dask r1) = dom (dask d1) \<union> dom new1 \<and>
     dom (dask q2) \<union> dom (dask r2) = dom (dask d2) \<union> dom new2 \<and>
     (\<forall>n1 n2. no1 = Some n1 \<and> no2 = Some n2 \<and> n1 \<noteq> [] \<and> n2 \<noteq> [] \<and> n1 \<noteq> n2 \<longrightarrow>
        dom new1 \<inter> dom new2 = {}) \<and>
     (no1 = None \<and> no2 = None \<and> s2 = run calls s1' \<longrightarrow>
        fst (name_or_next no1 s1) \<noteq> fst (name_or_next no2 s2) \<and> dom new1 \<inter> dom new2 = {}) \<and>
     (\<forall>n1. no1 = Some n1 \<longrightarrow> (\<forall>k\<in>dom new1. \<exists>rest. fst k = n1 @ rest))"
proof -
  have apart: "dom new1 \<inter> dom new2 = {}"
    if "fst (name_or_next no1 s1) \<noteq> fst (name_or_next no2 s2)"
  proof -
    have False if "k \<in> dom new1" "k \<in> dom new2" for k
    proof -
      from new_tasks_names [OF that(1) [unfolded assms(3)]] obtain s where
        "s \<in> suffixes" "fst k = (fst (name_or_next no1 s1) @ ''_'') @ s"
        by blast
      moreover from new_tasks_names [OF that(2) [unfolded assms(6)]] obtain t where
        "t \<in> suffixes" "fst k = (fst (name_or_next no2 s2) @ ''_'') @ t"
        by blast
      ultimately have "fst (name_or_next no1 s1) = fst (name_or_next no2 s2)"
        using suffix_clash [of "fst (name_or_next no1 s1)" s "fst (name_or_next no2 s2)" t]
        by simp
      with \<open>fst (name_or_next no1 s1) \<noteq> fst (name_or_next no2 s2)\<close> show False ..
    qed
    then show ?thesis by blast
  qed
  have a: "dom new1 \<inter> dom new2 = {}"
    if "no1 = Some n1" "no2 = Some n2" "n1 \<noteq> []" "n2 \<noteq> []" "n1 \<noteq> n2" for n1 n2
    using that by (intro apart) (simp add: name_or_next_def)
  have b: "fst (name_or_next no1 s1) \<noteq> fst (name_or_next no2 s2)"
    if "no1 = None" "no2 = None" "s2 = run calls s1'"
  proof -
    from assms(1) that(1) have "s1' = Suc s1"
      by (elim qr_success) (simp add: name_or_next_def next_names_def)
    with run_mono [of s1' calls] that(3) have "s1 \<noteq> s2"
      by simp
    then show ?thesis
      using str_nat_inj [of s1 s2] by (auto simp: that name_or_next_def next_names_def)
  qed
  have c: "\<exists>rest. fst k = n1 @ rest" if "no1 = Some n1" "k \<in> dom new1" for n1 k
  proof (cases "n1 = []")
    case True
    then show ?thesis by simp
  next
    case False
    from new_tasks_names [OF that(2) [unfolded assms(3)]] obtain s where
      "fst k = (fst (name_or_next no1 s1) @ ''_'') @ s"
      by blast
    with that(1) False show ?thesis
      by (simp add: name_or_next_def)
  qed
  show ?thesis
  proof (intro conjI allI impI ballI)
    show "dom (dask q1) \<union> dom (dask r1) = dom (dask d1) \<union> dom new1"
      by (rule created_keys [OF assms(1-3)])
    show "dom (dask q2) \<union> dom (dask r2) = dom (dask d2) \<union> dom new2"
      by (rule created_keys [OF assms(4-6)])
    show "dom new1 \<inter> dom new2 = {}"
      if "no1 = Some n1 \<and> no2 = Some n2 \<and> n1 \<noteq> [] \<and> n2 \<noteq> [] \<and> n1 \<noteq> n2" for n1 n2
      using that a by blast
    show "fst (name_or_next no1 s1) \<noteq> fst (name_or_next no2 s2)"
      if "no1 = None \<and> no2 = None \<and> s2 = run calls s1'"
      using that b by blast
    show "dom new1 \<inter> dom new2 = {}"
      if "no1 = None \<and> no2 = None \<and> s2 = run calls s1'"
      using that b by (intro apart) blast
    show "\<exists>rest. fst k = n1 @ rest" if "no1 = Some n1" "k \<in> dom new1" for n1 k
      using that by (rule c)
  qed
qed


lemma str_nat_1_2: "str_nat (Suc 0) = ''1''" "str_nat 2 = ''2''"
  by (subst str_nat.simps, simp add: digit_char_def)+

lemma shape_10x2: "shape data_10x2 ! Suc 0 = 2" "name data_10x2 = ''x''"
  by (simp_all add: data_10x2_def shape_def)

theorem names_keep_calls_apart_witness:
  "qr data_10x2 (Some ''a'') names_init = (Inr (q_10x2_for ''a_'', r_10x2_for ''a_''), names_init) \<and>
   qr data_10x2 (Some ''b'') names_init = (Inr (q_10x2_for ''b_'', r_10x2_for ''b_''), names_init) \<and>
   dom (new_tasks ''a_'' ''x'' [2, 1] 2 :: unit graph) \<inter>
     dom (new_tasks ''b_'' ''x'' [2, 1] 2 :: unit graph) = {} \<and>
   qr data_10x2 None names_init = (Inr (q_10x2_for ''tsqr_1_'', r_10x2_for ''tsqr_1_''), 2) \<and>
   run [(data_2cols, None), (data_10x2, Some ''a'')] 2 = 2 \<and>
   qr data_10x2 None 2 = (Inr (q_10x2_for ''tsqr_2_'', r_10x2_for ''tsqr_2_''), 3) \<and>
   dom (new_tasks ''tsqr_1_'' ''x'' [2, 1] 2 :: unit graph) \<inter>
     dom (new_tasks ''tsqr_2_'' ''x'' [2, 1] 2 :: unit graph) = {}"
proof -
  have n: "name_or_next (Some ''a'') names_init = (''a'', names_init)"
    "name_or_next (Some ''b'') names_init = (''b'', names_init)"
    "name_or_next None names_init = (''tsqr_1'', 2)" "name_or_next None 2 = (''tsqr_2'', 3)"
    "name_or_next (Some ''a'') 2 = (''a'', 2)"
    by (simp_all add: name_or_next_def next_names_def str_nat_1_2 names_init_def)
  have a: "qr data_10x2 (Some ''a'') names_init = (Inr (q_10x2_for ''a_'', r_10x2_for ''a_''), names_init)"
    and b: "qr data_10x2 (Some ''b'') names_init = (Inr (q_10x2_for ''b_'', r_10x2_for ''b_''), names_init)"
    and u1: "qr data_10x2 None names_init = (Inr (q_10x2_for ''tsqr_1_'', r_10x2_for ''tsqr_1_''), 2)"
    and u2: "qr data_10x2 None 2 = (Inr (q_10x2_for ''tsqr_2_'', r_10x2_for ''tsqr_2_''), 3)"
    by (simp_all add: qr_10x2_any n)
  have r: "run [(data_2cols, None), (data_10x2, Some ''a'')] 2 = 2"
    by (simp add: qr_10x2_any n qr_reject data_2cols_def)
  from names_keep_calls_apart [OF a numblocks_10x2 refl b numblocks_10x2 refl, of undefined]
  have "dom (new_tasks ''a_'' ''x'' [2, 1] 2 :: unit graph) \<inter>
     dom (new_tasks ''b_'' ''x'' [2, 1] 2 :: unit graph) = {}"
    by (simp add: n shape_10x2)
  moreover
  from names_keep_calls_apart [OF u1 numblocks_10x2 refl u2 numblocks_10x2 refl,
      of "[(data_2cols, None), (data_10x2, Some ''a'')]"] r
  have "dom (new_tasks ''tsqr_1_'' ''x'' [2, 1] 2 :: unit graph) \<inter>
     dom (new_tasks ''tsqr_2_'' ''x'' [2, 1] 2 :: unit graph) = {}"
    by (simp add: n shape_10x2)
  ultimately show ?thesis
    using a b u1 u2 r by simp
qed

text \<open>
  The claim C9 as stated fails for the empty name, which \<open>name or next(names)\<close> takes
  for no name: from a fresh generator, the call named \<open>''\<close> and a later call named
  \<open>'tsqr_1'\<close> create the same keys.
\<close>

theorem empty_name_draws_generated_name:
  "qr data_10x2 (Some []) names_init = (Inr (q_10x2_for ''tsqr_1_'', r_10x2_for ''tsqr_1_''), 2) \<and>
   qr data_10x2 (Some ''tsqr_1'') 2 =
     (Inr (q_10x2_for ''tsqr_1_'', r_10x2_for ''tsqr_1_''), 2) \<and>
   dask (q_10x2_for ''tsqr_1_'') (''tsqr_1_Q'', [0, 0]) =
     Some (Task np_dot [Ref (''tsqr_1_Q_st1'', [0, 0]), Ref (''tsqr_1_Q_st2'', [0, 0])]) \<and>
   (''tsqr_1_Q'', [0, 0]) \<in> dom (new_tasks ''tsqr_1_'' ''x'' [2, 1] 2 :: unit graph)"
proof -
  have "dsk_q ''tsqr_1_'' data_10x2 [2, Suc 0] 2 (''tsqr_1_'' @ ''Q'', [0, 0]) =
      Some (Task np_dot [Ref (''tsqr_1_'' @ ''Q_st1'', [0, 0]), Ref (''tsqr_1_'' @ ''Q_st2'', [0, 0])])"
    by (rule dsk_q_Q) simp
  moreover have "new_tasks ''tsqr_1_'' ''x'' [2, Suc 0] 2 (''tsqr_1_Q'', [0, 0]) =
      Some (Task np_dot [Ref (''tsqr_1_Q_st1'', [0, 0]), Ref (''tsqr_1_Q_st2'', [0, 0])]
        :: unit recipe)"
    by (simp add: new_tasks_def map_add_def stage_dicts dict_of_blocks)
  ultimately show ?thesis
    by (auto simp: qr_10x2_any name_or_next_def next_names_def str_nat_1_2 q_10x2_for_def
        names_init_def)
qed

end
